theory Spec2Isabelle
  imports Main "HOL-Library.Sublist"
begin

section \<open>Common data\<close>

text \<open>
  A topic is a tuple of strings (\<^verbatim>\<open>Tuple[str, ...]\<close>). The public operations take a
  \<^verbatim>\<open>Topic = Union[Tuple[str, ...], str, None]\<close>, which is the datatype \<open>topic_arg\<close>.
\<close>

type_synonym topic = "string list"

datatype topic_arg = TNone | TStr string | TTuple topic

text \<open>The Python exceptions that the modelled code raises, catches or lets through.\<close>

datatype exn =
    AssertionError
  | AttributeError
  | EOFError
  | IndexError
  | TypeError
  | ValueError
  | OSError
  | BrokenPipeError
  | ConnectionAbortedError
  | ConnectionRefusedError
  | ConnectionResetError
  | OtherError string


section \<open>The local dispatcher (\<^verbatim>\<open>mpubsub/__init__.py\<close>)\<close>

text \<open>
  \<^verbatim>\<open>self._subs\<close> is a dict from topic tuples to list objects. A list object is shared
  between the dict and the loop of \<^verbatim>\<open>publish\<close> that iterates over it, and
  \<^verbatim>\<open>add_subscriber\<close> and \<^verbatim>\<open>remove_subscriber\<close> mutate it in place, so the lists
  live in an explicit store: \<open>subs\<close> maps a topic to the address of its list, \<open>store\<close>
  maps an address to the list's contents, \<open>fresh\<close> is the next unused address.

  A list holds weak references. A reference is named by the identity \<open>sid\<close> of the
  callable it refers to; \<open>alive\<close> says whether that callable still exists, so that
  calling the reference yields the callable when \<open>alive\<close> holds and \<^verbatim>\<open>None\<close> otherwise.

  Two fields are observations and not part of the Python object: \<open>calls\<close> records
  every call \<^verbatim>\<open>sub(orig_topic, **kwargs)\<close> that \<^verbatim>\<open>publish\<close> makes, in order, and
  \<open>warned\<close> records the subscribers for which \<^verbatim>\<open>warnings.warn\<close> was called.
  The keyword arguments are a value of any type \<open>'kw\<close>.
\<close>

type_synonym sid = nat
type_synonym addr = nat

record 'kw pubsub =
  subs :: "topic \<rightharpoonup> addr"
  store :: "addr \<Rightarrow> sid list"
  fresh :: addr
  alive :: "sid \<Rightarrow> bool"
  calls :: "(sid \<times> topic \<times> 'kw) list"
  warned :: "sid list"

text \<open>\<^verbatim>\<open>PubSub.__init__\<close>: an empty dict. Every callable given here is alive.\<close>

definition init :: "'kw pubsub" where
  "init = \<lparr>subs = Map.empty, store = (\<lambda>_. []), fresh = 0, alive = (\<lambda>_. True),
           calls = [], warned = []\<rparr>"

text \<open>
  The normalisation at the head of \<^verbatim>\<open>add_subscriber\<close> and \<^verbatim>\<open>remove_subscriber\<close>:
  \<^verbatim>\<open>None\<close> becomes the empty tuple, a value that is not a tuple becomes a 1-tuple.
\<close>

fun normalize :: "topic_arg \<Rightarrow> topic" where
  "normalize TNone = []"
| "normalize (TStr s) = [s]"
| "normalize (TTuple t) = t"

text \<open>The list registered on a key, empty when the key is absent.\<close>

definition refs_at :: "('kw, 'z) pubsub_scheme \<Rightarrow> topic \<Rightarrow> sid list" where
  "refs_at w p = (case subs w p of None \<Rightarrow> [] | Some a \<Rightarrow> store w a)"

text \<open>
  \<^verbatim>\<open>add_subscriber\<close>: a key that is absent gets a new empty list; then the reference is
  appended to the key's list.
\<close>

definition add_subscriber ::
    "topic_arg \<Rightarrow> sid \<Rightarrow> ('kw, 'z) pubsub_scheme \<Rightarrow> ('kw, 'z) pubsub_scheme" where
  "add_subscriber topic subscriber w =
     (let t = normalize topic;
          w1 = (case subs w t of
                  None \<Rightarrow> w\<lparr>subs := (subs w)(t \<mapsto> fresh w),
                            store := (store w)(fresh w := []),
                            fresh := Suc (fresh w)\<rparr>
                | Some _ \<Rightarrow> w)
      in case subs w1 t of
           None \<Rightarrow> w1
         | Some a \<Rightarrow> w1\<lparr>store := (store w1)(a := store w1 a @ [subscriber])\<rparr>)"

text \<open>
  The loop of \<^verbatim>\<open>remove_subscriber\<close>: the first reference that is alive and whose
  referent equals the subscriber is removed, and the loop stops.
\<close>

fun remove_first :: "(sid \<Rightarrow> bool) \<Rightarrow> sid \<Rightarrow> sid list \<Rightarrow> sid list" where
  "remove_first live subscriber [] = []"
| "remove_first live subscriber (r # rs) =
     (if live r \<and> r = subscriber then rs else r # remove_first live subscriber rs)"

definition remove_subscriber ::
    "topic_arg \<Rightarrow> sid \<Rightarrow> ('kw, 'z) pubsub_scheme \<Rightarrow> ('kw, 'z) pubsub_scheme" where
  "remove_subscriber topic subscriber w =
     (let t = normalize topic
      in case subs w t of
           None \<Rightarrow> w
         | Some a \<Rightarrow> w\<lparr>store := (store w)(a := remove_first (alive w) subscriber (store w a))\<rparr>)"

text \<open>\<^verbatim>\<open>clear_subscribers\<close> empties the dict; the list objects are not touched.\<close>

definition clear_subscribers :: "('kw, 'z) pubsub_scheme \<Rightarrow> ('kw, 'z) pubsub_scheme" where
  "clear_subscribers w = w\<lparr>subs := Map.empty\<rparr>"

text \<open>
  A subscriber is a Python callable. Calling it with \<^verbatim>\<open>(orig_topic, **kwargs)\<close> first
  binds the arguments to its signature, which raises \<^verbatim>\<open>TypeError\<close> before the body
  runs when the signature does not accept them (\<open>accepts\<close>); otherwise the body runs. The
  body may do anything to the object it is subscribed on (it may call its methods), and
  it returns or raises: it is a function from the state to an optional exception and
  the new state. The type \<open>'st\<close> of the state is that of the dispatcher or of a
  subclass.
\<close>

record ('kw, 'st) callable =
  accepts :: "'kw \<Rightarrow> bool"
  body :: "topic \<Rightarrow> 'kw \<Rightarrow> 'st \<Rightarrow> exn option \<times> 'st"

definition invoke :: "('kw, 'st) callable \<Rightarrow> topic \<Rightarrow> 'kw \<Rightarrow> 'st \<Rightarrow> exn option \<times> 'st" where
  "invoke f t kw w = (if accepts f kw then body f t kw w else (Some TypeError, w))"

text \<open>
  The loop \<^verbatim>\<open>for ref in subs\<close> of \<^verbatim>\<open>publish\<close>. Python's list iterator keeps an index
  into the list object: each step reads the length of the list as it is then, stops
  when the index has reached it, and otherwise takes the element at the index and
  advances. The list is the one at address \<open>a\<close>, whatever the subscribers called so far
  have done to it. A reference that is dead is skipped. A \<^verbatim>\<open>TypeError\<close> from the call
  is caught and a warning is emitted; any other exception leaves the loop and
  \<^verbatim>\<open>publish\<close>. The loop need not end (a subscriber may append to the list at each
  call), so the result is an option: \<open>None\<close> is the loop that runs forever.
\<close>

partial_function (option) for_refs ::
    "(sid \<Rightarrow> ('kw, ('kw, 'z) pubsub_scheme) callable) \<Rightarrow> addr \<Rightarrow> nat \<Rightarrow> topic \<Rightarrow> 'kw \<Rightarrow>
     ('kw, 'z) pubsub_scheme \<Rightarrow> (exn option \<times> ('kw, 'z) pubsub_scheme) option" where
  "for_refs env a i orig kw w =
     (if i < length (store w a) then
        (let r = store w a ! i in
         if \<not> alive w r then for_refs env a (Suc i) orig kw w
         else (case invoke (env r) orig kw (w\<lparr>calls := calls w @ [(r, orig, kw)]\<rparr>) of
                 (None, w') \<Rightarrow> for_refs env a (Suc i) orig kw w'
               | (Some e, w') \<Rightarrow>
                   if e = TypeError
                   then for_refs env a (Suc i) orig kw (w'\<lparr>warned := warned w' @ [r]\<rparr>)
                   else Some (Some e, w')))
      else Some (None, w))"

text \<open>
  The loop \<^verbatim>\<open>while True\<close> of \<^verbatim>\<open>publish\<close>: look the current key up (a missing key is the
  caught \<^verbatim>\<open>KeyError\<close>), run the loop over its list, stop at the empty tuple, otherwise
  drop the last element (\<^verbatim>\<open>topic[:-1]\<close>) and go on.
\<close>

function publish_from ::
    "(sid \<Rightarrow> ('kw, ('kw, 'z) pubsub_scheme) callable) \<Rightarrow> topic \<Rightarrow> 'kw \<Rightarrow> topic \<Rightarrow>
     ('kw, 'z) pubsub_scheme \<Rightarrow> (exn option \<times> ('kw, 'z) pubsub_scheme) option" where
  "publish_from env orig kw topic w =
     (case (case subs w topic of
              None \<Rightarrow> Some (None, w)
            | Some a \<Rightarrow> for_refs env a 0 orig kw w) of
        None \<Rightarrow> None
      | Some (Some e, w') \<Rightarrow> Some (Some e, w')
      | Some (None, w') \<Rightarrow>
          if topic = [] then Some (None, w') else publish_from env orig kw (butlast topic) w')"
  by pat_completeness auto
termination
  by (relation "measure (\<lambda>(env, orig, kw, topic, w). length topic)") auto

declare publish_from.simps [simp del]

text \<open>
  \<^verbatim>\<open>publish\<close>: the assertion \<^verbatim>\<open>isinstance(topic, (str, tuple))\<close> fails on \<^verbatim>\<open>None\<close>; a
  string becomes a 1-tuple.
\<close>

definition publish ::
    "(sid \<Rightarrow> ('kw, ('kw, 'z) pubsub_scheme) callable) \<Rightarrow> topic_arg \<Rightarrow> 'kw \<Rightarrow>
     ('kw, 'z) pubsub_scheme \<Rightarrow> (exn option \<times> ('kw, 'z) pubsub_scheme) option" where
  "publish env topic kw w =
     (case topic of
        TNone \<Rightarrow> Some (Some AssertionError, w)
      | TStr s \<Rightarrow> publish_from env [s] kw [s] w
      | TTuple t \<Rightarrow> publish_from env t kw t w)"

section \<open>The network endpoint (\<^verbatim>\<open>mpubsub/net.py\<close>)\<close>

text \<open>
  A message is the pair \<^verbatim>\<open>(topic, kwargs)\<close>. The connection to the broker is what the
  endpoint can see of it: \<open>arriving\<close> are the messages that the broker delivers, in
  batches, the head batch being what is readable while \<^verbatim>\<open>_recv_all\<close> runs next;
  \<open>hung_up\<close> says that the broker has closed its end, so that once everything is read
  \<^verbatim>\<open>poll()\<close> is true and \<^verbatim>\<open>recv()\<close> raises \<^verbatim>\<open>EOFError\<close>; \<open>send_faults\<close> are the
  outcomes of the next calls of \<^verbatim>\<open>send\<close>, \<open>None\<close> (or no entry) being a send that
  succeeds.
\<close>

type_synonym 'kw message = "topic_arg \<times> 'kw"

record 'kw connection =
  arriving :: "'kw message list list"
  hung_up :: bool
  send_faults :: "exn option list"

text \<open>
  The class \<^verbatim>\<open>net.PubSub\<close> extends the dispatcher. \<open>wire\<close> is an observation: the
  messages that \<^verbatim>\<open>send\<close> has handed to the broker, in order.
\<close>

record 'kw netpubsub = "'kw pubsub" +
  conn :: "'kw connection option"
  flushing :: bool
  pending_send :: "'kw message list"
  pending_publish :: "'kw message list"
  wire :: "'kw message list"

definition LOCAL_SUFFIX :: string where
  "LOCAL_SUFFIX = ''*local''"

text \<open>
  \<^verbatim>\<open>net.PubSub.__init__\<close>: not connected, not flushing, empty queues. \<^verbatim>\<open>connect\<close>
  stores the connection once the handshake is done: a connected endpoint is
  \<open>net_init\<lparr>conn := Some c\<rparr>\<close>.
\<close>

definition net_init :: "'kw netpubsub" where
  "net_init = \<lparr>subs = Map.empty, store = (\<lambda>_. []), fresh = 0, alive = (\<lambda>_. True),
               calls = [], warned = [], conn = None, flushing = False,
               pending_send = [], pending_publish = [], wire = []\<rparr>"

text \<open>The three possible ends of a loop body.\<close>

datatype 'st ctl = Continue 'st | Break 'st | Raise exn 'st

text \<open>
  \<^verbatim>\<open>_recv_all\<close>: while the connection is readable, receive and append to
  \<^verbatim>\<open>_pending_publish\<close>.
\<close>

definition recv_all ::
    "('kw, 'z) netpubsub_scheme \<Rightarrow> exn option \<times> ('kw, 'z) netpubsub_scheme" where
  "recv_all s =
     (case conn s of
        None \<Rightarrow> (Some AssertionError, s)
      | Some c \<Rightarrow>
          (let (batch, later) = (case arriving c of [] \<Rightarrow> ([], []) | b # bs \<Rightarrow> (b, bs));
               s1 = s\<lparr>conn := Some (c\<lparr>arriving := later\<rparr>),
                       pending_publish := pending_publish s @ batch\<rparr>
           in if later = [] \<and> hung_up c then (Some EOFError, s1) else (None, s1)))"

text \<open>
  The \<^verbatim>\<open>try\<close> statement of \<^verbatim>\<open>_flush\<close>: pop the head of \<^verbatim>\<open>_pending_send\<close> and send
  it. \<^verbatim>\<open>IndexError\<close> (the empty queue) is passed over, \<^verbatim>\<open>ValueError\<close> is logged,
  \<^verbatim>\<open>ConnectionResetError\<close> clears the queue, closes and forgets the connection and
  leaves the loop; any other exception is not caught.
\<close>

definition try_send :: "('kw, 'z) netpubsub_scheme \<Rightarrow> ('kw, 'z) netpubsub_scheme ctl" where
  "try_send s =
     (case pending_send s of
        [] \<Rightarrow> Continue s
      | msg # rest \<Rightarrow>
          (let s1 = s\<lparr>pending_send := rest\<rparr>
           in case conn s1 of
                None \<Rightarrow> Raise AttributeError s1
              | Some c \<Rightarrow>
                  (case send_faults c of
                     [] \<Rightarrow> Continue (s1\<lparr>wire := wire s1 @ [msg]\<rparr>)
                   | None # fs \<Rightarrow>
                       Continue (s1\<lparr>conn := Some (c\<lparr>send_faults := fs\<rparr>),
                                    wire := wire s1 @ [msg]\<rparr>)
                   | Some e # fs \<Rightarrow>
                       (let s2 = s1\<lparr>conn := Some (c\<lparr>send_faults := fs\<rparr>)\<rparr>
                        in if e = IndexError then Continue s2
                           else if e = ValueError then Continue s2
                           else if e = ConnectionResetError
                           then Break (s2\<lparr>pending_send := [], conn := None\<rparr>)
                           else Raise e s2))))"

text \<open>
  The inner loop of \<^verbatim>\<open>_flush\<close>: pop the head of \<^verbatim>\<open>_pending_publish\<close> and publish it
  with the dispatcher's \<^verbatim>\<open>publish\<close>, until the queue is empty. A subscriber may
  append to the queue, so the loop need not end.
\<close>

partial_function (option) drain ::
    "(sid \<Rightarrow> ('kw, ('kw, 'z) netpubsub_scheme) callable) \<Rightarrow> ('kw, 'z) netpubsub_scheme \<Rightarrow>
     (exn option \<times> ('kw, 'z) netpubsub_scheme) option" where
  "drain env s =
     (case pending_publish s of
        [] \<Rightarrow> Some (None, s)
      | (topic, kw) # rest \<Rightarrow>
          (case publish env topic kw (s\<lparr>pending_publish := rest\<rparr>) of
             None \<Rightarrow> None
           | Some (Some e, s') \<Rightarrow> Some (Some e, s')
           | Some (None, s') \<Rightarrow> drain env s'))"

text \<open>One pass through the body of the outer loop of \<^verbatim>\<open>_flush\<close>.\<close>

definition flush_iter ::
    "(sid \<Rightarrow> ('kw, ('kw, 'z) netpubsub_scheme) callable) \<Rightarrow> ('kw, 'z) netpubsub_scheme \<Rightarrow>
     ('kw, 'z) netpubsub_scheme ctl option" where
  "flush_iter env s =
     (case recv_all s of
        (Some e, s1) \<Rightarrow> Some (Raise e s1)
      | (None, s1) \<Rightarrow>
          (case try_send s1 of
             Break s2 \<Rightarrow> Some (Break s2)
           | Raise e s2 \<Rightarrow> Some (Raise e s2)
           | Continue s2 \<Rightarrow>
               (case drain env s2 of
                  None \<Rightarrow> None
                | Some (Some e, s3) \<Rightarrow> Some (Raise e s3)
                | Some (None, s3) \<Rightarrow> Some (Continue s3))))"

text \<open>
  The condition of the outer loop:
  \<^verbatim>\<open>(self._pending_publish or self._pending_send) and self._conn\<close>.
\<close>

definition flush_cond :: "('kw, 'z) netpubsub_scheme \<Rightarrow> bool" where
  "flush_cond s = ((pending_publish s \<noteq> [] \<or> pending_send s \<noteq> []) \<and> conn s \<noteq> None)"

partial_function (option) flush_loop ::
    "(sid \<Rightarrow> ('kw, ('kw, 'z) netpubsub_scheme) callable) \<Rightarrow> ('kw, 'z) netpubsub_scheme \<Rightarrow>
     (exn option \<times> ('kw, 'z) netpubsub_scheme) option" where
  "flush_loop env s =
     (if flush_cond s then
        (case flush_iter env s of
           None \<Rightarrow> None
         | Some (Continue s') \<Rightarrow> flush_loop env s'
         | Some (Break s') \<Rightarrow> Some (None, s')
         | Some (Raise e s') \<Rightarrow> Some (Some e, s'))
      else Some (None, s))"

text \<open>
  \<^verbatim>\<open>_flush\<close>: the two assertions, the flag set, the loop, the flag cleared. An
  exception that leaves the loop leaves the flag set.
\<close>

definition flush ::
    "(sid \<Rightarrow> ('kw, ('kw, 'z) netpubsub_scheme) callable) \<Rightarrow> ('kw, 'z) netpubsub_scheme \<Rightarrow>
     (exn option \<times> ('kw, 'z) netpubsub_scheme) option" where
  "flush env s =
     (if conn s = None then Some (Some AssertionError, s)
      else if flushing s then Some (Some AssertionError, s)
      else (case flush_loop env (s\<lparr>flushing := True\<rparr>) of
              None \<Rightarrow> None
            | Some (Some e, s') \<Rightarrow> Some (Some e, s')
            | Some (None, s') \<Rightarrow> Some (None, s'\<lparr>flushing := False\<rparr>)))"

text \<open>
  The test of \<^verbatim>\<open>net.PubSub.publish\<close> for a local message:
  \<^verbatim>\<open>topic and isinstance(topic, tuple) and topic[-1] == LOCAL_SUFFIX\<close>.
\<close>

definition is_local :: "topic_arg \<Rightarrow> bool" where
  "is_local topic =
     (case topic of
        TNone \<Rightarrow> False
      | TStr s \<Rightarrow> False
      | TTuple t \<Rightarrow> t \<noteq> [] \<and> last t = LOCAL_SUFFIX)"

text \<open>
  \<^verbatim>\<open>net.PubSub.publish\<close>: not connected or a local message, the dispatcher's
  \<^verbatim>\<open>publish\<close>; otherwise the message goes to both queues and \<^verbatim>\<open>_flush\<close> runs unless
  it is running already.
\<close>

definition net_publish ::
    "(sid \<Rightarrow> ('kw, ('kw, 'z) netpubsub_scheme) callable) \<Rightarrow> topic_arg \<Rightarrow> 'kw \<Rightarrow>
     ('kw, 'z) netpubsub_scheme \<Rightarrow> (exn option \<times> ('kw, 'z) netpubsub_scheme) option" where
  "net_publish env topic kw s =
     (if conn s = None \<or> is_local topic then publish env topic kw s
      else (let s1 = s\<lparr>pending_publish := pending_publish s @ [(topic, kw)]\<rparr>;
                s2 = s1\<lparr>pending_send := pending_send s1 @ [(topic, kw)]\<rparr>
            in if \<not> flushing s2 then flush env s2 else Some (None, s2)))"

section \<open>The broker (\<^verbatim>\<open>mpubsub/broker.py\<close>)\<close>

text \<open>
  The values on the wire are the four protocol tokens and the messages: \<open>INIT\<close> is
  \<^verbatim>\<open>True\<close>, \<open>NEWCONN\<close> is \<^verbatim>\<open>None\<close>, \<open>NEWPUBSUB\<close> is \<^verbatim>\<open>...\<close>, \<open>STOP\<close> is \<^verbatim>\<open>False\<close>,
  and \<open>Payload\<close> is any other value, a pair \<^verbatim>\<open>(topic, kwargs)\<close> of type \<open>'p\<close>.
  What \<^verbatim>\<open>recv()\<close> does is a value, \<^verbatim>\<open>EOFError\<close> or \<^verbatim>\<open>OSError\<close>.
\<close>

datatype 'p wire = INIT | NEWCONN | NEWPUBSUB | STOP | Payload 'p

datatype 'p rcv = Recv "'p wire" | RecvEOF | RecvOSError

text \<open>
  A connection object is named by its identity. \<^verbatim>\<open>self._clients\<close> is a set of
  connections; the list \<open>clients\<close> holds its elements once each, in the order in which
  a loop over the set visits them. The other fields are what the connections do and
  have done: \<open>faults c\<close> are the outcomes of the next calls of \<^verbatim>\<open>send\<close> on \<open>c\<close> (\<open>None\<close>,
  or no entry, being a send that succeeds), \<open>delivered c\<close> are the values that \<^verbatim>\<open>send\<close>
  has written to \<open>c\<close>, and \<open>shut\<close> are the connections on which \<^verbatim>\<open>close\<close> was called.
  The list \<^verbatim>\<open>pending\<close>, the set \<^verbatim>\<open>closed\<close> and \<^verbatim>\<open>control\<close> are local variables of
  the forwarder thread and are passed as arguments.
\<close>

type_synonym conn_id = nat

record 'p broker =
  clients :: "conn_id list"
  faults :: "conn_id \<Rightarrow> exn option list"
  delivered :: "conn_id \<Rightarrow> 'p wire list"
  shut :: "conn_id list"

text \<open>\<^verbatim>\<open>conn.send(v)\<close>: the next outcome of \<open>c\<close> decides.\<close>

definition conn_send :: "conn_id \<Rightarrow> 'p wire \<Rightarrow> 'p broker \<Rightarrow> exn option \<times> 'p broker" where
  "conn_send c v b =
     (case faults b c of
        [] \<Rightarrow> (None, b\<lparr>delivered := (delivered b)(c := delivered b c @ [v])\<rparr>)
      | None # fs \<Rightarrow>
          (None, b\<lparr>faults := (faults b)(c := fs),
                    delivered := (delivered b)(c := delivered b c @ [v])\<rparr>)
      | Some e # fs \<Rightarrow> (Some e, b\<lparr>faults := (faults b)(c := fs)\<rparr>))"

text \<open>\<^verbatim>\<open>conn.close()\<close>.\<close>

definition conn_close :: "conn_id \<Rightarrow> 'p broker \<Rightarrow> 'p broker" where
  "conn_close c b = b\<lparr>shut := shut b @ [c]\<rparr>"




text \<open>
  \<^verbatim>\<open>_get_control_conn\<close>. The argument \<open>queue\<close> is what \<^verbatim>\<open>accept()\<close> will return, each
  connection with what its first \<^verbatim>\<open>recv()\<close> does; when it is used up \<^verbatim>\<open>accept()\<close>
  blocks for ever, which is the result \<open>None\<close>. Otherwise the result is the control
  connection or the exception, the list \<^verbatim>\<open>pending\<close> and the broker.
\<close>

fun get_control_conn ::
    "(conn_id \<times> 'p rcv) list \<Rightarrow> (conn_id \<times> 'p wire) list \<Rightarrow> 'p broker \<Rightarrow>
     ((exn + conn_id) \<times> (conn_id \<times> 'p wire) list \<times> 'p broker) option" where
  "get_control_conn [] pending b = None"
| "get_control_conn ((c, r) # queue) pending b =
     (let b1 = b\<lparr>clients := List.insert c (clients b)\<rparr>
      in case r of
           RecvEOF \<Rightarrow> Some (Inl EOFError, pending, b1)
         | RecvOSError \<Rightarrow> Some (Inl OSError, pending, b1)
         | Recv msg \<Rightarrow>
             if msg = INIT then
               (case conn_send c INIT b1 of
                  (None, b2) \<Rightarrow> Some (Inr c, pending, b2)
                | (Some e, b2) \<Rightarrow> Some (Inl e, pending, b2))
             else if msg = NEWPUBSUB then
               (case conn_send c NEWPUBSUB b1 of
                  (None, b2) \<Rightarrow> get_control_conn queue pending b2
                | (Some e, b2) \<Rightarrow> Some (Inl e, pending, b2))
             else if msg = STOP then
               get_control_conn queue pending
                 (conn_close c (b1\<lparr>clients := removeAll c (clients b1)\<rparr>))
             else get_control_conn queue (pending @ [(c, msg)]) b1)"

text \<open>
  The state of the first \<^verbatim>\<open>for\<close> loop of the main loop of \<^verbatim>\<open>_broker\<close>: the variable
  \<^verbatim>\<open>control\<close> (which \<^verbatim>\<open>STOP\<close> sets to \<^verbatim>\<open>None\<close>), the set \<^verbatim>\<open>closed\<close>, the list
  \<^verbatim>\<open>pending\<close> and the broker.
\<close>

record 'p forwarder =
  control :: "conn_id option"
  closed :: "conn_id list"
  pending :: "(conn_id \<times> 'p wire) list"
  bro :: "'p broker"

text \<open>
  The body of that loop for one readable connection, given what its \<^verbatim>\<open>recv()\<close> does:
  \<^verbatim>\<open>EOFError\<close> and \<^verbatim>\<open>OSError\<close> are caught and stand for \<^verbatim>\<open>None\<close>. On the control
  connection the value is sent back, then \<^verbatim>\<open>False\<close> ends the forwarder and any value
  but \<^verbatim>\<open>None\<close> fails the assertion. On another connection \<^verbatim>\<open>None\<close> and \<^verbatim>\<open>False\<close>
  close it, and any other value is appended to \<^verbatim>\<open>pending\<close>.
\<close>

definition broker_recv :: "conn_id \<Rightarrow> 'p rcv \<Rightarrow> 'p forwarder \<Rightarrow> exn option \<times> 'p forwarder" where
  "broker_recv c r f =
     (let msg = (case r of Recv v \<Rightarrow> v | RecvEOF \<Rightarrow> NEWCONN | RecvOSError \<Rightarrow> NEWCONN)
      in if control f = Some c then
           (case conn_send c msg (bro f) of
              (Some e, b') \<Rightarrow> (Some e, f\<lparr>bro := b'\<rparr>)
            | (None, b') \<Rightarrow>
                if msg = STOP then (None, f\<lparr>control := None, bro := b'\<rparr>)
                else if msg = NEWCONN then (None, f\<lparr>bro := b'\<rparr>)
                else (Some AssertionError, f\<lparr>bro := b'\<rparr>))
         else if msg = NEWCONN \<or> msg = STOP then
           (None, f\<lparr>closed := List.insert c (closed f), bro := conn_close c (bro f)\<rparr>)
         else (None, f\<lparr>pending := pending f @ [(c, msg)]\<rparr>))"

text \<open>The loop \<^verbatim>\<open>for conn in conns\<close> over the connections that are readable.\<close>

fun broker_recv_all ::
    "(conn_id \<times> 'p rcv) list \<Rightarrow> 'p forwarder \<Rightarrow> exn option \<times> 'p forwarder" where
  "broker_recv_all [] f = (None, f)"
| "broker_recv_all ((c, r) # ready) f =
     (case broker_recv c r f of
        (None, f') \<Rightarrow> broker_recv_all ready f'
      | (Some e, f') \<Rightarrow> (Some e, f'))"

text \<open>
  The body of the accept loop of \<^verbatim>\<open>start\<close> for one accepted connection, up to the
  notification of the forwarder: \<open>first\<close> is \<open>None\<close> when the connection is not
  readable within the timeout, otherwise what \<^verbatim>\<open>recv()\<close> does.
\<close>

definition accept_client :: "conn_id \<Rightarrow> 'p rcv option \<Rightarrow> 'p broker \<Rightarrow> exn option \<times> 'p broker" where
  "accept_client c first b =
     (case first of
        None \<Rightarrow> (None, conn_close c b)
      | Some RecvEOF \<Rightarrow> (Some EOFError, b)
      | Some RecvOSError \<Rightarrow> (Some OSError, b)
      | Some (Recv msg) \<Rightarrow>
          if msg \<noteq> NEWPUBSUB then (None, conn_close c b)
          else (case conn_send c NEWPUBSUB b of
                  (Some e, b') \<Rightarrow> (Some e, b')
                | (None, b') \<Rightarrow> (None, b'\<lparr>clients := List.insert c (clients b')\<rparr>)))"

section \<open>Vocabulary of the properties\<close>

subsection \<open>Subscribers\<close>

text \<open>
  Two callables used as examples: \<open>quiet\<close> accepts any arguments and returns;
  \<open>unsubscribing s\<close> accepts any arguments, removes the subscriber \<open>s\<close> from the topic
  it is called with, and returns.
\<close>

definition quiet :: "('kw, 'st) callable" where
  "quiet = \<lparr>accepts = (\<lambda>kw. True), body = (\<lambda>t kw w. (None, w))\<rparr>"

definition unsubscribing :: "sid \<Rightarrow> ('kw, ('kw, 'z) pubsub_scheme) callable" where
  "unsubscribing s =
     \<lparr>accepts = (\<lambda>kw. True), body = (\<lambda>t kw w. (None, remove_subscriber (TTuple t) s w))\<rparr>"



text \<open>
  The subscribers of \<open>env\<close> are inert, with outcomes \<open>out\<close>, when a call never changes
  the state of the object they are subscribed on, and returns or raises as \<open>out\<close>
  says, whatever the state.
\<close>

definition inert ::
    "(sid \<Rightarrow> ('kw, 'st) callable) \<Rightarrow> (sid \<Rightarrow> topic \<Rightarrow> 'kw \<Rightarrow> exn option) \<Rightarrow> bool" where
  "inert env out = (\<forall>s t kw w. invoke (env s) t kw w = (out s t kw, w))"

text \<open>
  The subscribers that match a topic, in the order of the claims: for each prefix of
  the topic, from the topic itself down to the empty tuple, the live references of the
  list registered on that prefix, in the order of the list.
\<close>

definition matching :: "('kw, 'z) pubsub_scheme \<Rightarrow> topic \<Rightarrow> sid list" where
  "matching w t = concat (map (\<lambda>p. filter (alive w) (refs_at w p)) (rev (prefixes t)))"

text \<open>
  Calling the subscribers of a list one after the other, with the outcomes \<open>out\<close>: each
  call is recorded, \<^verbatim>\<open>TypeError\<close> is recorded as a warning, any other exception ends
  the delivery.
\<close>

fun deliver ::
    "(sid \<Rightarrow> topic \<Rightarrow> 'kw \<Rightarrow> exn option) \<Rightarrow> topic \<Rightarrow> 'kw \<Rightarrow> sid list \<Rightarrow>
     ('kw, 'z) pubsub_scheme \<Rightarrow> exn option \<times> ('kw, 'z) pubsub_scheme" where
  "deliver out orig kw [] w = (None, w)"
| "deliver out orig kw (s # ss) w =
     (let w1 = w\<lparr>calls := calls w @ [(s, orig, kw)]\<rparr>
      in case out s orig kw of
           None \<Rightarrow> deliver out orig kw ss w1
         | Some e \<Rightarrow>
             if e = TypeError then deliver out orig kw ss (w1\<lparr>warned := warned w1 @ [s]\<rparr>)
             else (Some e, w1))"

subsection \<open>Dispatchers built by the operations\<close>

text \<open>
  In a dispatcher that \<^verbatim>\<open>__init__\<close>, \<^verbatim>\<open>add_subscriber\<close>, \<^verbatim>\<open>remove_subscriber\<close> and
  \<^verbatim>\<open>clear_subscribers\<close> have built, every list of the dict was allocated by
  \<^verbatim>\<open>add_subscriber\<close> for its key: its address is below \<open>fresh\<close>, and no two keys
  share a list.
\<close>

definition well_formed :: "('kw, 'z) pubsub_scheme \<Rightarrow> bool" where
  "well_formed w =
     ((\<forall>p a. subs w p = Some a \<longrightarrow> a < fresh w) \<and>
      (\<forall>p q a. subs w p = Some a \<and> subs w q = Some a \<longrightarrow> p = q))"

subsection \<open>Examples\<close>

text \<open>
  Three dispatchers: \<open>subs_a\<close> has subscriber 0 on the key \<^verbatim>\<open>('a',)\<close>; \<open>subs_a_a\<close> has
  subscribers 0 and 1 on that key, subscribed in this order; \<open>subs_ab\<close> has subscriber
  0 on \<^verbatim>\<open>('a',)\<close> and subscribers 1 and 2, in this order, on \<^verbatim>\<open>('a', 'b')\<close>.
\<close>

definition subs_a :: "unit pubsub" where
  "subs_a = add_subscriber (TTuple [''a'']) 0 init"

definition subs_a_a :: "unit pubsub" where
  "subs_a_a = add_subscriber (TTuple [''a'']) 1 subs_a"



subsection \<open>Passes of the flush loop\<close>

text \<open>
  The state at the head of the outer loop of \<^verbatim>\<open>_flush\<close> after \<open>n\<close> complete passes
  through its body, when the loop gets that far: each of these passes found the
  condition true and reached the end of the body.
\<close>

fun flush_iters ::
    "nat \<Rightarrow> (sid \<Rightarrow> ('kw, ('kw, 'z) netpubsub_scheme) callable) \<Rightarrow>
     ('kw, 'z) netpubsub_scheme \<Rightarrow> ('kw, 'z) netpubsub_scheme option" where
  "flush_iters 0 env s = Some s"
| "flush_iters (Suc n) env s =
     (if flush_cond s then
        (case flush_iter env s of
           Some (Continue s') \<Rightarrow> flush_iters n env s'
         | _ \<Rightarrow> None)
      else None)"

text \<open>
  Example endpoints. \<open>connected\<close> is an endpoint connected to a broker over a
  connection on which nothing arrives and every send succeeds. \<open>resetting\<close> is
  connected, has two messages to send and none to publish; one message arrives from
  the broker before each of the first two passes, the first send succeeds and the second
  raises \<^verbatim>\<open>ConnectionResetError\<close>.
\<close>

definition connected :: "unit netpubsub" where
  "connected = net_init\<lparr>conn := Some \<lparr>arriving = [], hung_up = False, send_faults = []\<rparr>\<rparr>"

definition resetting :: "unit netpubsub" where
  "resetting =
     net_init\<lparr>conn := Some \<lparr>arriving = [[(TStr ''in1'', ())], [(TStr ''in2'', ())]],
                              hung_up = False,
                              send_faults = [None, Some ConnectionResetError]\<rparr>,
               pending_send := [(TStr ''out1'', ()), (TStr ''out2'', ())]\<rparr>"

subsection \<open>The forward step, seen from one destination\<close>








text \<open>
  An example broker: the control connection 0 and the clients 1, 2 and 3; every send
  succeeds but the first send to client 2, which raises \<^verbatim>\<open>BrokenPipeError\<close>.
\<close>

definition three_clients :: "string broker" where
  "three_clients =
     \<lparr>clients = [0, 1, 2, 3],
      faults = (\<lambda>c. if c = 2 then [Some BrokenPipeError] else []),
      delivered = (\<lambda>c. []),
      shut = []\<rparr>"

text \<open>
  The forwarder in its main loop on that broker, with nothing pending; and whether the
  next send on a connection succeeds.
\<close>

definition forwarding :: "string forwarder" where
  "forwarding = \<lparr>control = Some 0, closed = [], pending = [], bro = three_clients\<rparr>"

definition send_succeeds :: "conn_id \<Rightarrow> 'p broker \<Rightarrow> bool" where
  "send_succeeds c b = (case faults b c of [] \<Rightarrow> True | r # fs \<Rightarrow> r = None)"

section \<open>Properties of the dispatcher\<close>

subsection \<open>The examples, evaluated\<close>





subsection \<open>Publishing to inert subscribers\<close>

text \<open>
  With inert subscribers the loop over a list ends, and \<^verbatim>\<open>publish\<close> is the delivery
  to the subscribers that match, in their order.
\<close>

lemma for_refs_inert:
  assumes "inert env out"
  shows "for_refs env a i orig kw w =
           Some (deliver out orig kw (filter (alive w) (drop i (store w a))) w)"
proof (induction "length (store w a) - i" arbitrary: i w)
  case 0
  then show ?case by (subst for_refs.simps) simp
next
  case (Suc n)
  then have lt: "i < length (store w a)" by simp
  have dr: "drop i (store w a) = store w a ! i # drop (Suc i) (store w a)"
    using lt by (simp add: Cons_nth_drop_Suc)
  have inv: "\<And>s t kw w. invoke (env s) t kw w = (out s t kw, w)"
    using assms by (simp add: inert_def)
  show ?case
  proof (cases "alive w (store w a ! i)")
    case False
    have "n = length (store w a) - Suc i" using Suc.hyps(2) by simp
    from Suc.hyps(1)[OF this] False lt dr show ?thesis
      by (subst for_refs.simps) simp
  next
    case True
    let ?r = "store w a ! i"
    let ?w1 = "w\<lparr>calls := calls w @ [(?r, orig, kw)]\<rparr>"
    let ?w2 = "?w1\<lparr>warned := warned ?w1 @ [?r]\<rparr>"
    have h1: "n = length (store ?w1 a) - Suc i" using Suc.hyps(2) by simp
    have h2: "n = length (store ?w2 a) - Suc i" using Suc.hyps(2) by simp
    note ih1 = Suc.hyps(1)[OF h1] and ih2 = Suc.hyps(1)[OF h2]
    show ?thesis
      apply (subst for_refs.simps)
      using True lt dr ih1 ih2
      by (simp add: inv Let_def split: option.split)
  qed
qed

lemma deliver_frame:
  "deliver out orig kw ss w = (r, w') \<Longrightarrow>
     subs w' = subs w \<and> store w' = store w \<and> alive w' = alive w \<and> fresh w' = fresh w \<and>
     pubsub.more w' = pubsub.more w"
  by (induction ss arbitrary: w) (auto simp: Let_def split: option.splits if_splits)

lemma deliver_append:
  "deliver out orig kw (xs @ ys) w =
     (case deliver out orig kw xs w of
        (None, w') \<Rightarrow> deliver out orig kw ys w'
      | (Some e, w') \<Rightarrow> (Some e, w'))"
  by (induction xs arbitrary: w) (auto simp: Let_def split: option.splits)

lemma refs_at_frame: "subs w' = subs w \<Longrightarrow> store w' = store w \<Longrightarrow> refs_at w' p = refs_at w p"
  by (simp add: refs_at_def split: option.split)

lemma matching_frame:
  assumes "subs w' = subs w" and "store w' = store w" and "alive w' = alive w"
  shows "matching w' t = matching w t"
  by (simp add: matching_def refs_at_frame[OF assms(1,2)] assms(3))

lemma matching_Nil: "matching w [] = filter (alive w) (refs_at w [])"
  by (simp add: matching_def)

lemma matching_snoc:
  "matching w (xs @ [x]) = filter (alive w) (refs_at w (xs @ [x])) @ matching w xs"
  by (simp add: matching_def)


lemma publish_from_inert:
  assumes "inert env out"
  shows "publish_from env orig kw topic w = Some (deliver out orig kw (matching w topic) w)"
proof (induction topic arbitrary: w rule: rev_induct)
  case Nil
  show ?case
    by (subst publish_from.simps, cases "subs w []")
       (simp_all add: matching_Nil refs_at_def for_refs_inert[OF assms] split: prod.split option.split)
next
  case (snoc x xs)
  obtain r w' where d: "deliver out orig kw (filter (alive w) (refs_at w (xs @ [x]))) w = (r, w')"
    by (cases "deliver out orig kw (filter (alive w) (refs_at w (xs @ [x]))) w")
  from deliver_frame[OF d] have m: "matching w' xs = matching w xs"
    by (intro matching_frame) simp_all
  have inner: "(case subs w (xs @ [x]) of None \<Rightarrow> Some (None, w)
                | Some a \<Rightarrow> for_refs env a 0 orig kw w) = Some (r, w')"
    using d by (cases "subs w (xs @ [x])") (simp_all add: refs_at_def for_refs_inert[OF assms])
  have "publish_from env orig kw (xs @ [x]) w =
          (case r of None \<Rightarrow> publish_from env orig kw xs w' | Some e \<Rightarrow> Some (Some e, w'))"
    by (subst publish_from.simps) (simp add: inner split: option.split)
  then show ?case
    by (simp add: snoc.IH m matching_snoc deliver_append d split: option.split)
qed




lemma inert_quiet: "inert (\<lambda>s. quiet) (\<lambda>s t kw. None)"
  by (simp add: inert_def invoke_def quiet_def)








subsection \<open>Hierarchical delivery\<close>





subsection \<open>Order of delivery\<close>






subsection \<open>Exceptions raised by subscribers\<close>





subsection \<open>The absent topic\<close>

text \<open>
  Claim C8 fails on the code. \<^verbatim>\<open>add_subscriber\<close> and \<^verbatim>\<open>remove_subscriber\<close> normalise
  \<^verbatim>\<open>None\<close> to the empty tuple, and the docstring of \<^verbatim>\<open>publish\<close> allows \<^verbatim>\<open>None\<close>, but the
  first statement of \<^verbatim>\<open>publish\<close> asserts that the topic is a string or a tuple: with a
  subscriber on the empty key, publishing \<^verbatim>\<open>None\<close> raises \<^verbatim>\<open>AssertionError\<close> and
  calls nobody.
\<close>

theorem publish_None_fails:
  "normalize TNone = [] \<and>
   refs_at (add_subscriber TNone 0 (init :: unit pubsub)) [] = [0] \<and>
   publish env TNone () (add_subscriber TNone 0 (init :: unit pubsub)) =
     Some (Some AssertionError, add_subscriber TNone 0 init)"
  by (simp add: publish_def refs_at_def add_subscriber_def init_def)

subsection \<open>Unsubscribing during delivery\<close>

text \<open>
  Claim C9 fails on the code. In \<open>subs_a_a\<close> the subscribers 0 and 1 are registered on
  the same key, in this order. When both are quiet, a publication calls both. When
  subscriber 0 removes itself as it is called, the loop of \<^verbatim>\<open>publish\<close>, which iterates
  over the list itself, finds the list one shorter after the call: the index of the
  iterator has reached its length and the loop ends. The publication returns without
  an exception, but subscriber 1, alive and still in the list, has not been called.
\<close>

theorem unsubscribing_subscriber_skips_next:
  "(\<exists>w'. publish (\<lambda>s. quiet) (TTuple [''a'']) () subs_a_a = Some (None, w') \<and>
          calls w' = [(0, [''a''], ()), (1, [''a''], ())]) \<and>
   (\<exists>w'. publish (\<lambda>s. if s = 0 then unsubscribing 0 else quiet) (TTuple [''a'']) () subs_a_a =
            Some (None, w') \<and>
          calls w' = [(0, [''a''], ())] \<and> refs_at w' [''a''] = [1] \<and> alive w' 1)"
  by (simp add: publish_def publish_from.simps for_refs.simps refs_at_def subs_a_a_def
        subs_a_def add_subscriber_def remove_subscriber_def init_def invoke_def
        unsubscribing_def quiet_def Let_def)

subsection \<open>Duplicate subscriptions\<close>









lemma well_formed_remove_subscriber:
  "well_formed w \<Longrightarrow> well_formed (remove_subscriber topic s w)"
  unfolding well_formed_def remove_subscriber_def Let_def
  by (cases "subs w (normalize topic)") auto

lemma well_formed_clear_subscribers: "well_formed (clear_subscribers w)"
  by (simp add: well_formed_def clear_subscribers_def)

























section \<open>Properties of the network endpoint\<close>

subsection \<open>The local suffix\<close>

lemma deliver_net_frame:
  "deliver out orig kw ss s = (r, s') \<Longrightarrow>
     conn s' = conn s \<and> flushing s' = flushing s \<and> pending_send s' = pending_send s \<and>
     pending_publish s' = pending_publish s \<and> wire s' = wire s"
  by (induction ss arbitrary: s) (auto simp: Let_def split: option.splits if_splits)

lemma is_local_tuple: "is_local (TTuple t) \<longleftrightarrow> t \<noteq> [] \<and> last t = LOCAL_SUFFIX"
  by (simp add: is_local_def)

text \<open>
  Claim C3 fails for the bare string. The test for a local message requires a tuple
  (\<^verbatim>\<open>isinstance(topic, tuple)\<close>), so on a connected endpoint the topic \<^verbatim>\<open>'*local'\<close>,
  whose normal form \<^verbatim>\<open>('*local',)\<close> ends with the suffix, is queued and sent to the
  broker.
\<close>

theorem bare_local_string_is_forwarded:
  "normalize (TStr ''*local'') = [''*local''] \<and>
   last (normalize (TStr ''*local'')) = LOCAL_SUFFIX \<and>
   conn connected \<noteq> None \<and>
   (\<exists>s'. net_publish (\<lambda>s. quiet) (TStr ''*local'') () connected = Some (None, s') \<and>
          wire s' = [(TStr ''*local'', ())])"
  by (simp add: LOCAL_SUFFIX_def connected_def net_init_def net_publish_def is_local_def
        flush_def flush_loop.simps flush_cond_def flush_iter_def recv_all_def try_send_def
        drain.simps publish_def publish_from.simps Let_def)


text \<open>
  Claim C3, amended. For a topic that is a non-empty tuple whose last element is the
  local suffix, \<^verbatim>\<open>net.PubSub.publish\<close> is the dispatcher's \<^verbatim>\<open>publish\<close>, connected or
  not; with inert subscribers it returns and leaves \<^verbatim>\<open>_pending_send\<close>,
  \<^verbatim>\<open>_pending_publish\<close>, the connection and what was sent to the broker as they were.
\<close>

theorem local_suffix_not_forwarded:
  assumes "t \<noteq> []" and "last t = LOCAL_SUFFIX"
  shows "net_publish env (TTuple t) kw s = publish env (TTuple t) kw s \<and>
         (inert env out \<longrightarrow>
            (\<exists>r s'. net_publish env (TTuple t) kw s = Some (r, s') \<and>
                     pending_send s' = pending_send s \<and> wire s' = wire s \<and>
                     pending_publish s' = pending_publish s \<and> conn s' = conn s))"
proof -
  have eq: "net_publish env (TTuple t) kw s = publish env (TTuple t) kw s"
    using assms by (simp add: net_publish_def is_local_tuple)
  have "\<exists>r s'. net_publish env (TTuple t) kw s = Some (r, s') \<and>
                pending_send s' = pending_send s \<and> wire s' = wire s \<and>
                pending_publish s' = pending_publish s \<and> conn s' = conn s"
    if i: "inert env out"
  proof -
    obtain r s' where d: "deliver out t kw (matching s t) s = (r, s')"
      by (cases "deliver out t kw (matching s t) s")
    have "net_publish env (TTuple t) kw s = Some (r, s')"
      by (simp add: eq publish_def publish_from_inert[OF i] d)
    with deliver_net_frame[OF d] show ?thesis by simp
  qed
  with eq show ?thesis by blast
qed

theorem local_suffix_not_forwarded_witness:
  "net_publish (\<lambda>s. quiet) (TTuple [''d'', ''*local'']) () (add_subscriber (TStr ''d'') 0 connected) =
     publish (\<lambda>s. quiet) (TTuple [''d'', ''*local'']) () (add_subscriber (TStr ''d'') 0 connected) \<and>
   (\<exists>r s'. net_publish (\<lambda>s. quiet) (TTuple [''d'', ''*local'']) ()
              (add_subscriber (TStr ''d'') 0 connected) = Some (r, s') \<and>
            pending_send s' = [] \<and> wire s' = [] \<and> pending_publish s' = [] \<and>
            conn s' = conn connected)"
proof -
  have h1: "[''d'', ''*local''] \<noteq> []" by simp
  have h2: "last [''d'', ''*local''] = LOCAL_SUFFIX" by (simp add: LOCAL_SUFFIX_def)
  have f: "pending_send (add_subscriber (TStr ''d'') 0 connected) = []"
    "wire (add_subscriber (TStr ''d'') 0 connected) = []"
    "pending_publish (add_subscriber (TStr ''d'') 0 connected) = []"
    "conn (add_subscriber (TStr ''d'') 0 connected) = conn connected"
    by (simp_all add: add_subscriber_def connected_def net_init_def)
  note th = local_suffix_not_forwarded[OF h1 h2, where env="\<lambda>s. quiet" and kw="()"
      and s="add_subscriber (TStr ''d'') 0 connected" and out="\<lambda>s t kw. None"]
  from th[THEN conjunct1] th[THEN conjunct2, THEN mp, OF inert_quiet]
  show ?thesis
    by (simp add: f)
qed

subsection \<open>A connection reset while flushing\<close>

lemma flush_loop_iters:
  "flush_iters n env s = Some h \<Longrightarrow> flush_loop env s = flush_loop env h"
proof (induction n arbitrary: s)
  case 0
  then show ?case by simp
next
  case (Suc n)
  from Suc.prems obtain s' where c: "flush_cond s" and i: "flush_iter env s = Some (Continue s')"
    and r: "flush_iters n env s' = Some h"
    by (auto split: if_splits option.splits ctl.splits)
  have "flush_loop env s = flush_loop env s'"
    by (subst flush_loop.simps) (simp add: c i)
  with Suc.IH[OF r] show ?case by simp
qed

lemma try_send_reset:
  assumes "pending_send h1 = msg # rest" and "conn h1 = Some c"
      and "send_faults c = Some ConnectionResetError # fs"
  shows "try_send h1 = Break (h1\<lparr>conn := None, pending_send := []\<rparr>)"
  using assms by (simp add: try_send_def Let_def)

text \<open>
  Claim C6. Let \<^verbatim>\<open>_flush\<close> start on a connected endpoint that is not flushing, and let
  \<open>h\<close> be the state at the head of the loop after any number \<open>n\<close> of complete passes.
  If the loop goes on from \<open>h\<close>, \<^verbatim>\<open>_recv_all\<close> leaves the state \<open>h1\<close>, there is a message
  to send and the send raises \<^verbatim>\<open>ConnectionResetError\<close>, then \<^verbatim>\<open>_flush\<close> returns
  normally with the state \<open>h1\<close> in which the connection is \<^verbatim>\<open>None\<close>, \<^verbatim>\<open>_pending_send\<close>
  is empty and the flag is cleared: \<^verbatim>\<open>_pending_publish\<close> is what it was when the
  send failed, and no subscriber has been called since.
\<close>

theorem flush_connection_reset:
  assumes "conn s \<noteq> None" and "\<not> flushing s"
      and "flush_iters n env (s\<lparr>flushing := True\<rparr>) = Some h"
      and "flush_cond h"
      and "recv_all h = (None, h1)"
      and "pending_send h1 = msg # rest"
      and "conn h1 = Some c"
      and "send_faults c = Some ConnectionResetError # fs"
  shows "flush env s = Some (None, h1\<lparr>conn := None, flushing := False, pending_send := []\<rparr>) \<and>
         (\<exists>s'. flush env s = Some (None, s') \<and> pending_send s' = [] \<and> conn s' = None \<and>
                pending_publish s' = pending_publish h1 \<and> calls s' = calls h1 \<and>
                wire s' = wire h1)"
proof -
  have "flush_iter env h = Some (Break (h1\<lparr>conn := None, pending_send := []\<rparr>))"
    by (simp add: flush_iter_def assms(5) try_send_reset[OF assms(6,7,8)])
  then have "flush_loop env h = Some (None, h1\<lparr>conn := None, pending_send := []\<rparr>)"
    by (subst flush_loop.simps) (simp add: assms(4))
  then have "flush_loop env (s\<lparr>flushing := True\<rparr>) =
               Some (None, h1\<lparr>conn := None, pending_send := []\<rparr>)"
    using flush_loop_iters[OF assms(3)] by simp
  then have "flush env s = Some (None, h1\<lparr>conn := None, flushing := False, pending_send := []\<rparr>)"
    using assms(1,2) by (simp add: flush_def)
  then show ?thesis by simp
qed

lemma resetting_pass:
  "flush_iters 1 (\<lambda>s. quiet) (resetting\<lparr>flushing := True\<rparr>) =
     Some (resetting\<lparr>flushing := True,
             conn := Some \<lparr>arriving = [[(TStr ''in2'', ())]], hung_up = False,
                            send_faults = [Some ConnectionResetError]\<rparr>,
             pending_send := [(TStr ''out2'', ())],
             wire := [(TStr ''out1'', ())]\<rparr>)"
  by (simp add: resetting_def net_init_def flush_cond_def flush_iter_def recv_all_def
        try_send_def drain.simps publish_def publish_from.simps Let_def)


theorem flush_connection_reset_witness:
  "\<exists>s'. flush (\<lambda>s. quiet) resetting = Some (None, s') \<and> pending_send s' = [] \<and>
         conn s' = None \<and> pending_publish s' = [(TStr ''in2'', ())] \<and> calls s' = [] \<and>
         wire s' = [(TStr ''out1'', ())]"
proof -
  let ?c = "\<lparr>arriving = [] :: unit message list list, hung_up = False,
             send_faults = [Some ConnectionResetError]\<rparr>"
  let ?h = "resetting\<lparr>flushing := True,
              conn := Some \<lparr>arriving = [[(TStr ''in2'', ())]], hung_up = False,
                             send_faults = [Some ConnectionResetError]\<rparr>,
              pending_send := [(TStr ''out2'', ())],
              wire := [(TStr ''out1'', ())]\<rparr>"
  let ?h1 = "?h\<lparr>conn := Some ?c, pending_publish := [(TStr ''in2'', ())]\<rparr>"
  have a1: "conn resetting \<noteq> None" and a2: "\<not> flushing resetting"
    by (simp_all add: resetting_def net_init_def)
  have a4: "flush_cond ?h"
    by (simp add: flush_cond_def)
  have a5: "recv_all ?h = (None, ?h1)"
    by (simp add: recv_all_def resetting_def net_init_def)
  have a6: "pending_send ?h1 = (TStr ''out2'', ()) # []"
    by simp
  have a7: "conn ?h1 = Some ?c"
    by simp
  have a8: "send_faults ?c = Some ConnectionResetError # []"
    by simp
  from flush_connection_reset[OF a1 a2 resetting_pass a4 a5 a6 a7 a8]
  show ?thesis
    by (simp add: resetting_def net_init_def)
qed

section \<open>Properties of the broker\<close>

subsection \<open>The forward step\<close>


















subsection \<open>Acknowledgement of the tokens\<close>

lemma conn_send_succeeds:
  "send_succeeds c b \<Longrightarrow> fst (conn_send c v b) = None"
  "send_succeeds c b \<Longrightarrow> delivered (snd (conn_send c v b)) c = delivered b c @ [v]"
  by (auto simp: send_succeeds_def conn_send_def split: list.splits option.splits)

text \<open>
  Claim C5 fails on the control connection. In the main loop of the forwarder every
  value received on the control connection is sent back before it is looked at, and so
  is \<^verbatim>\<open>STOP\<close>: the acceptor, which sent it, waits for this echo before it joins the
  forwarder thread.
\<close>

theorem control_echoes_stop:
  "control forwarding = Some 0 \<and>
   (\<exists>f'. broker_recv 0 (Recv STOP) forwarding = (None, f') \<and>
          delivered (bro f') 0 = [STOP] \<and> control f' = None)"
  by (simp add: forwarding_def three_clients_def broker_recv_def conn_send_def)

text \<open>
  Claim C5, amended. A \<^verbatim>\<open>STOP\<close> received from a connection that is not the control
  connection is not acknowledged, in the main loop and during the start-up of the
  forwarder: nothing is sent to anyone and the connection is closed. On the control
  connection every value received is echoed when the send succeeds, \<^verbatim>\<open>NEWCONN\<close> and
  \<^verbatim>\<open>STOP\<close> included, and these two are the values after which the loop goes on without an
  exception. During the start-up of the forwarder \<^verbatim>\<open>INIT\<close> and \<^verbatim>\<open>NEWPUBSUB\<close> are
  echoed, and the acceptor echoes \<^verbatim>\<open>NEWPUBSUB\<close> to a client that it admits.
\<close>

theorem token_acknowledgement:
  "(control f \<noteq> Some c \<longrightarrow>
      (\<exists>f'. broker_recv c (Recv STOP) f = (None, f') \<and> delivered (bro f') = delivered (bro f) \<and>
             c \<in> set (closed f') \<and> c \<in> set (shut (bro f')))) \<and>
   (get_control_conn ((c, Recv STOP) # queue) pend b =
      get_control_conn queue pend
        (conn_close c (b\<lparr>clients := removeAll c (List.insert c (clients b))\<rparr>)) \<and>
    delivered (conn_close c (b\<lparr>clients := removeAll c (List.insert c (clients b))\<rparr>)) =
      delivered b) \<and>
   (control f = Some c \<and> send_succeeds c (bro f) \<longrightarrow>
      (\<exists>r f'. broker_recv c (Recv v) f = (r, f') \<and>
               delivered (bro f') c = delivered (bro f) c @ [v] \<and>
               (r = None \<longleftrightarrow> v = NEWCONN \<or> v = STOP))) \<and>
   (send_succeeds c b \<longrightarrow>
      (\<exists>b'. get_control_conn ((c, Recv INIT) # queue) pend b = Some (Inr c, pend, b') \<and>
             delivered b' c = delivered b c @ [INIT])) \<and>
   (send_succeeds c b \<longrightarrow>
      (\<exists>b'. get_control_conn ((c, Recv NEWPUBSUB) # queue) pend b =
               get_control_conn queue pend b' \<and>
             delivered b' c = delivered b c @ [NEWPUBSUB] \<and> c \<in> set (clients b'))) \<and>
   (send_succeeds c b \<longrightarrow>
      (\<exists>b'. accept_client c (Some (Recv NEWPUBSUB)) b = (None, b') \<and>
             delivered b' c = delivered b c @ [NEWPUBSUB] \<and> c \<in> set (clients b')))"
proof -
  have a: "control f \<noteq> Some c \<longrightarrow>
      (\<exists>f'. broker_recv c (Recv STOP) f = (None, f') \<and> delivered (bro f') = delivered (bro f) \<and>
             c \<in> set (closed f') \<and> c \<in> set (shut (bro f')))"
    by (simp add: broker_recv_def conn_close_def)
  have b: "get_control_conn ((c, Recv STOP) # queue) pend b =
      get_control_conn queue pend
        (conn_close c (b\<lparr>clients := removeAll c (List.insert c (clients b))\<rparr>)) \<and>
    delivered (conn_close c (b\<lparr>clients := removeAll c (List.insert c (clients b))\<rparr>)) =
      delivered b"
    by (simp add: conn_close_def Let_def)
  have c: "control f = Some c \<and> send_succeeds c (bro f) \<longrightarrow>
      (\<exists>r f'. broker_recv c (Recv v) f = (r, f') \<and>
               delivered (bro f') c = delivered (bro f) c @ [v] \<and>
               (r = None \<longleftrightarrow> v = NEWCONN \<or> v = STOP))"
  proof
    assume h: "control f = Some c \<and> send_succeeds c (bro f)"
    obtain r1 b1 where cs: "conn_send c v (bro f) = (r1, b1)"
      by (cases "conn_send c v (bro f)")
    with h conn_send_succeeds[of c "bro f" v]
    have "r1 = None" "delivered b1 c = delivered (bro f) c @ [v]" by simp_all
    with h cs show "\<exists>r f'. broker_recv c (Recv v) f = (r, f') \<and>
               delivered (bro f') c = delivered (bro f) c @ [v] \<and>
               (r = None \<longleftrightarrow> v = NEWCONN \<or> v = STOP)"
      by (simp add: broker_recv_def)
  qed
  let ?b1 = "b\<lparr>clients := List.insert c (clients b)\<rparr>"
  have ss: "send_succeeds c ?b1 = send_succeeds c b"
    by (simp add: send_succeeds_def)
  have d: "send_succeeds c b \<longrightarrow>
      (\<exists>b'. get_control_conn ((c, Recv INIT) # queue) pend b = Some (Inr c, pend, b') \<and>
             delivered b' c = delivered b c @ [INIT])"
  proof
    assume h: "send_succeeds c b"
    obtain r1 b1 where cs: "conn_send c INIT ?b1 = (r1, b1)"
      by (cases "conn_send c INIT ?b1")
    with h ss conn_send_succeeds[of c ?b1 INIT]
    have "r1 = None" "delivered b1 c = delivered b c @ [INIT]" by simp_all
    with cs show "\<exists>b'. get_control_conn ((c, Recv INIT) # queue) pend b = Some (Inr c, pend, b') \<and>
             delivered b' c = delivered b c @ [INIT]"
      by (simp add: Let_def)
  qed
  have cl: "clients (snd (conn_send c v' ?b1)) = List.insert c (clients b)" for v'
    by (simp add: conn_send_def split: list.split option.split)
  have e: "send_succeeds c b \<longrightarrow>
      (\<exists>b'. get_control_conn ((c, Recv NEWPUBSUB) # queue) pend b =
               get_control_conn queue pend b' \<and>
             delivered b' c = delivered b c @ [NEWPUBSUB] \<and> c \<in> set (clients b'))"
  proof
    assume h: "send_succeeds c b"
    obtain r1 b1 where cs: "conn_send c NEWPUBSUB ?b1 = (r1, b1)"
      by (cases "conn_send c NEWPUBSUB ?b1")
    with h ss conn_send_succeeds[of c ?b1 NEWPUBSUB] cl[of NEWPUBSUB]
    have "r1 = None" "delivered b1 c = delivered b c @ [NEWPUBSUB]" "c \<in> set (clients b1)"
      by simp_all
    with cs show "\<exists>b'. get_control_conn ((c, Recv NEWPUBSUB) # queue) pend b =
               get_control_conn queue pend b' \<and>
             delivered b' c = delivered b c @ [NEWPUBSUB] \<and> c \<in> set (clients b')"
      by (intro exI[of _ b1]) (simp add: Let_def)
  qed
  have g: "send_succeeds c b \<longrightarrow>
      (\<exists>b'. accept_client c (Some (Recv NEWPUBSUB)) b = (None, b') \<and>
             delivered b' c = delivered b c @ [NEWPUBSUB] \<and> c \<in> set (clients b'))"
  proof
    assume h: "send_succeeds c b"
    obtain r1 b1 where cs: "conn_send c NEWPUBSUB b = (r1, b1)"
      by (cases "conn_send c NEWPUBSUB b")
    with h conn_send_succeeds[of c b NEWPUBSUB]
    have "r1 = None" "delivered b1 c = delivered b c @ [NEWPUBSUB]" by simp_all
    with cs show "\<exists>b'. accept_client c (Some (Recv NEWPUBSUB)) b = (None, b') \<and>
             delivered b' c = delivered b c @ [NEWPUBSUB] \<and> c \<in> set (clients b')"
      by (simp add: accept_client_def)
  qed
  from a b c d e g show ?thesis by blast
qed


theorem token_acknowledgement_witness:
  "(\<exists>f'. broker_recv 1 (Recv STOP) forwarding = (None, f') \<and>
          delivered (bro f') = delivered three_clients \<and>
          1 \<in> set (closed f') \<and> 1 \<in> set (shut (bro f'))) \<and>
   (\<exists>r f'. broker_recv 0 (Recv NEWCONN) forwarding = (r, f') \<and>
            delivered (bro f') 0 = [NEWCONN] \<and> r = None) \<and>
   (\<exists>b'. get_control_conn [(0, Recv INIT)] [] three_clients = Some (Inr 0, [], b') \<and>
          delivered b' 0 = [INIT]) \<and>
   (\<exists>b'. accept_client 1 (Some (Recv NEWPUBSUB)) three_clients = (None, b') \<and>
          delivered b' 1 = [NEWPUBSUB])"
proof -
  have bf: "bro forwarding = three_clients" "control forwarding = Some 0"
    by (simp_all add: forwarding_def)
  have dl: "delivered three_clients c = []" for c
    by (simp add: three_clients_def)
  have ok: "send_succeeds 0 three_clients" "send_succeeds 1 three_clients"
    by (simp_all add: send_succeeds_def three_clients_def)
  note t1 = token_acknowledgement[where f=forwarding and c=1 and b=three_clients
      and v=NEWCONN and queue="[]" and pend="[]"]
  note t0 = token_acknowledgement[where f=forwarding and c=0 and b=three_clients
      and v=NEWCONN and queue="[]" and pend="[]"]
  have w1: "\<exists>f'. broker_recv 1 (Recv STOP) forwarding = (None, f') \<and>
          delivered (bro f') = delivered three_clients \<and>
          1 \<in> set (closed f') \<and> 1 \<in> set (shut (bro f'))"
    using t1[THEN conjunct1] by (simp add: bf)
  have w2: "\<exists>r f'. broker_recv 0 (Recv NEWCONN) forwarding = (r, f') \<and>
            delivered (bro f') 0 = [NEWCONN] \<and> r = None"
    using t0[THEN conjunct2, THEN conjunct2, THEN conjunct1] ok by (simp add: bf dl)
  have w3: "\<exists>b'. get_control_conn [(0, Recv INIT)] [] three_clients = Some (Inr 0, [], b') \<and>
          delivered b' 0 = [INIT]"
    using t0[THEN conjunct2, THEN conjunct2, THEN conjunct2, THEN conjunct1] ok
    by (simp add: dl)
  have w4: "\<exists>b'. accept_client 1 (Some (Recv NEWPUBSUB)) three_clients = (None, b') \<and>
          delivered b' 1 = [NEWPUBSUB]"
    using t1[THEN conjunct2, THEN conjunct2, THEN conjunct2, THEN conjunct2, THEN conjunct2] ok
    by (auto simp: dl)
  from w1 w2 w3 w4 show ?thesis by blast
qed


end
